theory Spec2Isabelle
  imports Complex_Main
begin

section \<open>Numbers\<close>

text \<open>
  The values of the script's \<^verbatim>\<open>number\<close> type that the viewer can compute: a finite
  value, one of the two infinities, or NaN. Finite values are modelled as reals: the
  rounding of IEEE doubles and the sign of zero are not represented.
\<close>

datatype number = NaN | NegInfinity | Finite real | PosInfinity

text \<open>\<^verbatim>\<open>a * b\<close>\<close>

fun num_times :: "number \<Rightarrow> number \<Rightarrow> number" where
  "num_times NaN _ = NaN"
| "num_times _ NaN = NaN"
| "num_times (Finite a) (Finite b) = Finite (a * b)"
| "num_times (Finite a) PosInfinity =
     (if a = 0 then NaN else if 0 < a then PosInfinity else NegInfinity)"
| "num_times (Finite a) NegInfinity =
     (if a = 0 then NaN else if 0 < a then NegInfinity else PosInfinity)"
| "num_times PosInfinity (Finite b) =
     (if b = 0 then NaN else if 0 < b then PosInfinity else NegInfinity)"
| "num_times NegInfinity (Finite b) =
     (if b = 0 then NaN else if 0 < b then NegInfinity else PosInfinity)"
| "num_times PosInfinity PosInfinity = PosInfinity"
| "num_times NegInfinity NegInfinity = PosInfinity"
| "num_times PosInfinity NegInfinity = NegInfinity"
| "num_times NegInfinity PosInfinity = NegInfinity"

text \<open>\<^verbatim>\<open>-a\<close>\<close>

fun num_neg :: "number \<Rightarrow> number" where
  "num_neg NaN = NaN"
| "num_neg NegInfinity = PosInfinity"
| "num_neg (Finite a) = Finite (- a)"
| "num_neg PosInfinity = NegInfinity"

text \<open>\<^verbatim>\<open>a + b\<close>\<close>

fun num_plus :: "number \<Rightarrow> number \<Rightarrow> number" where
  "num_plus NaN _ = NaN"
| "num_plus _ NaN = NaN"
| "num_plus (Finite a) (Finite b) = Finite (a + b)"
| "num_plus PosInfinity NegInfinity = NaN"
| "num_plus NegInfinity PosInfinity = NaN"
| "num_plus PosInfinity _ = PosInfinity"
| "num_plus _ PosInfinity = PosInfinity"
| "num_plus NegInfinity _ = NegInfinity"
| "num_plus _ NegInfinity = NegInfinity"

text \<open>\<^verbatim>\<open>a - b\<close>\<close>

definition num_minus :: "number \<Rightarrow> number \<Rightarrow> number" where
  "num_minus a b = num_plus a (num_neg b)"

text \<open>\<^verbatim>\<open>a < b\<close>: false as soon as one side is NaN.\<close>

fun num_less :: "number \<Rightarrow> number \<Rightarrow> bool" where
  "num_less NaN _ = False"
| "num_less _ NaN = False"
| "num_less (Finite a) (Finite b) = (a < b)"
| "num_less NegInfinity NegInfinity = False"
| "num_less NegInfinity _ = True"
| "num_less _ NegInfinity = False"
| "num_less PosInfinity _ = False"
| "num_less _ PosInfinity = True"

text \<open>\<^verbatim>\<open>Math.max(a, b)\<close> and \<^verbatim>\<open>Math.min(a, b)\<close>: NaN as soon as one argument is NaN.\<close>

fun Math_max :: "number \<Rightarrow> number \<Rightarrow> number" where
  "Math_max NaN _ = NaN"
| "Math_max _ NaN = NaN"
| "Math_max a b = (if num_less a b then b else a)"

fun Math_min :: "number \<Rightarrow> number \<Rightarrow> number" where
  "Math_min NaN _ = NaN"
| "Math_min _ NaN = NaN"
| "Math_min a b = (if num_less b a then b else a)"

text \<open>\<^verbatim>\<open>Math.log(x)\<close> of a finite \<open>x\<close>: NaN below zero, minus infinity at zero.\<close>

definition Math_log :: "real \<Rightarrow> number" where
  "Math_log x = (if x < 0 then NaN else if x = 0 then NegInfinity else Finite (ln x))"

text \<open>
  \<^verbatim>\<open>Math.pow(x, y)\<close> of finite \<open>x\<close> and \<open>y\<close>: a negative base has a power only for an
  integral exponent, and zero to a negative exponent is plus infinity.
\<close>

definition Math_pow :: "real \<Rightarrow> real \<Rightarrow> number" where
  "Math_pow x y =
     (if 0 < x then Finite (x powr y)
      else if x = 0 then (if y < 0 then PosInfinity else if y = 0 then Finite 1 else Finite 0)
      else if y = of_int \<lfloor>y\<rfloor>
        then Finite ((if even \<lfloor>y\<rfloor> then 1 else - 1) * ((- x) powr y))
        else NaN)"

text \<open>
  The clamp of the specification, \<open>clamp(x, lo, hi)\<close>: \<open>lo\<close> below the interval, \<open>hi\<close>
  above it, \<open>x\<close> itself otherwise. It is stated here independently of the two
  \<^verbatim>\<open>Math.min\<close>/\<^verbatim>\<open>Math.max\<close> idioms of the source, for numbers and for reals.
\<close>

definition clamp :: "number \<Rightarrow> number \<Rightarrow> number \<Rightarrow> number" where
  "clamp x lo hi = (if num_less x lo then lo else if num_less hi x then hi else x)"

definition clamp_real :: "real \<Rightarrow> real \<Rightarrow> real \<Rightarrow> real" where
  "clamp_real x lo hi = (if x < lo then lo else if hi < x then hi else x)"

text \<open>A channel value: a finite number between 0 and 255.\<close>

fun in_channel_range :: "number \<Rightarrow> bool" where
  "in_channel_range (Finite x) = (0 \<le> x \<and> x \<le> 255)"
| "in_channel_range _ = False"


section \<open>Colour temperature\<close>

text \<open>
  \<^verbatim>\<open>tempToColor(kelvin)\<close>, for a finite argument. The source formats the three channels
  into the string \<^verbatim>\<open>rgb(r, g, b)\<close>; the model returns the triple that is formatted.
\<close>

definition tempToColor :: "real \<Rightarrow> number \<times> number \<times> number" where
  "tempToColor kelvin0 =
     (let kelvin = kelvin0 / 100 in
      if kelvin \<le> 66 then
        (let red = Finite 255;
             green = Math_min (Finite 255)
                       (Math_max (Finite 0)
                          (num_minus (num_times (Finite 99.4708025861) (Math_log kelvin))
                             (Finite 161.1195681661)));
             blue = (if kelvin \<le> 19 then Finite 0
                     else Math_min (Finite 255)
                            (Math_max (Finite 0)
                               (num_minus
                                  (num_times (Finite 138.5177312231) (Math_log (kelvin - 10)))
                                  (Finite 305.0447927307))))
         in (red, green, blue))
      else
        (let red = Math_min (Finite 255)
                     (Math_max (Finite 0)
                        (num_times (Finite 329.698727446)
                           (Math_pow (kelvin - 60) (- 0.1332047592))));
             green = Math_min (Finite 255)
                       (Math_max (Finite 0)
                          (num_times (Finite 288.1221695283)
                             (Math_pow (kelvin - 60) (- 0.0755148492))));
             blue = Finite 255
         in (red, green, blue)))"


section \<open>Interactive light controller\<close>

record LightState =
  position :: "real \<times> real \<times> real"
  intensity :: real
  temperature :: real

definition INITIAL_LIGHT_STATE :: LightState where
  "INITIAL_LIGHT_STATE = \<lparr>position = (2, 2, 2), intensity = 1, temperature = 6500\<rparr>"

record MouseEvent =
  shiftKey :: bool
  altKey :: bool
  clientX :: real
  clientY :: real

text \<open>
  The function that \<^verbatim>\<open>handleMouseMove\<close> hands to \<^verbatim>\<open>setLightState\<close>, closed over
  \<^verbatim>\<open>scaledDx\<close> and \<^verbatim>\<open>scaledDy\<close>. It reads \<^verbatim>\<open>isAdjusting.current\<close> when it is run;
  \<open>adjusting\<close> is the value it finds there.
\<close>

definition updater :: "bool \<Rightarrow> real \<Rightarrow> real \<Rightarrow> LightState \<Rightarrow> LightState" where
  "updater adjusting scaledDx scaledDy prev =
     (if adjusting then
        (let newTemp = max 2000 (min 10000 (temperature prev + scaledDx * 100));
             newInt = max 0 (min 6 (intensity prev - scaledDy))
         in prev\<lparr>intensity := newInt, temperature := newTemp\<rparr>)
      else
        (case position prev of (px, py, pz) \<Rightarrow>
           prev\<lparr>position := (px + scaledDx, py - scaledDy, pz)\<rparr>))"

text \<open>
  An update of the light state that waits for the next render. The framework runs the
  function of an update at once when no other update is waiting, and keeps the state it
  returned (\<open>Eager\<close>); otherwise it keeps the function and runs it during the render
  (\<open>Queued\<close>, with the two values the function is closed over).
\<close>

datatype update = Eager LightState | Queued real real

text \<open>
  The state of one \<^verbatim>\<open>MovableLight\<close>: the light state of the last render, the updates
  that wait for the next one, the two drag flags, the previous pointer position, and the
  \<^verbatim>\<open>enabled\<close> flag of the orbit controls stored on the shared scene (\<open>None\<close> when no
  controls are stored there).
\<close>

record MovableLight =
  lightState :: LightState
  updates :: "update list"
  isDragging :: bool
  isAdjusting :: bool
  prevPos :: "real \<times> real"
  controls_enabled :: "bool option"

definition MovableLight_mount :: "bool option \<Rightarrow> MovableLight" where
  "MovableLight_mount ctl =
     \<lparr>lightState = INITIAL_LIGHT_STATE, updates = [], isDragging = False,
      isAdjusting = False, prevPos = (0, 0), controls_enabled = ctl\<rparr>"

definition handleMouseDown :: "MouseEvent \<Rightarrow> MovableLight \<Rightarrow> MovableLight" where
  "handleMouseDown e s =
     (if \<not> shiftKey e then s
      else
        (let s1 = (if altKey e then s\<lparr>isAdjusting := True\<rparr> else s\<lparr>isDragging := True\<rparr>)
         in s1\<lparr>prevPos := (clientX e, clientY e),
              controls_enabled := map_option (\<lambda>_. False) (controls_enabled s1)\<rparr>))"

text \<open>\<^verbatim>\<open>setLightState(f)\<close>, where \<open>f\<close> is the updater closed over \<open>scaledDx\<close> and \<open>scaledDy\<close>.\<close>

definition setLightState :: "real \<Rightarrow> real \<Rightarrow> MovableLight \<Rightarrow> MovableLight" where
  "setLightState scaledDx scaledDy s =
     (let u = (if updates s = []
               then Eager (updater (isAdjusting s) scaledDx scaledDy (lightState s))
               else Queued scaledDx scaledDy)
      in s\<lparr>updates := updates s @ [u]\<rparr>)"

definition handleMouseMove :: "MouseEvent \<Rightarrow> MovableLight \<Rightarrow> MovableLight" where
  "handleMouseMove e s =
     (if \<not> isDragging s \<and> \<not> isAdjusting s then s
      else
        (let dx = clientX e - fst (prevPos s);
             dy = clientY e - snd (prevPos s);
             scaledDx = dx * 0.05;
             scaledDy = dy * 0.05
         in (setLightState scaledDx scaledDy s)\<lparr>prevPos := (clientX e, clientY e)\<rparr>))"

definition handleMouseUp :: "MovableLight \<Rightarrow> MovableLight" where
  "handleMouseUp s =
     s\<lparr>isDragging := False, isAdjusting := False,
       controls_enabled := map_option (\<lambda>_. True) (controls_enabled s)\<rparr>"

text \<open>
  A render of the component: the waiting updates are applied in order, a queued function
  reading \<^verbatim>\<open>isAdjusting.current\<close> as it is at the render.
\<close>

fun apply_update :: "bool \<Rightarrow> update \<Rightarrow> LightState \<Rightarrow> LightState" where
  "apply_update adjusting (Eager next) prev = next"
| "apply_update adjusting (Queued scaledDx scaledDy) prev = updater adjusting scaledDx scaledDy prev"

definition render :: "MovableLight \<Rightarrow> MovableLight" where
  "render s =
     s\<lparr>lightState := fold (apply_update (isAdjusting s)) (updates s) (lightState s),
       updates := []\<rparr>"


section \<open>Asset loader\<close>

text \<open>
  What the loader hands to the error callback: an \<^verbatim>\<open>Error\<close> object with its message, or
  a value that is no instance of \<^verbatim>\<open>Error\<close>, such as an error event, which carries a
  message of its own all the same.
\<close>

datatype load_failure = ErrorInstance string | ErrorEvent string

text \<open>
  One run of the effect of \<^verbatim>\<open>ModelLoader\<close>: a call of \<^verbatim>\<open>loader.load\<close> whose callbacks
  close over the URL, the retry count of that render, and the \<^verbatim>\<open>canceled\<close> flag of that
  run. \<open>settled\<close> records that the loader has called one of the two callbacks.
\<close>

record request =
  req_url :: string
  req_retryCount :: int
  canceled :: bool
  settled :: bool

text \<open>A timer created by \<^verbatim>\<open>setTimeout\<close>: its delay in milliseconds, and whether it has fired.\<close>

record timer =
  delay :: int
  fired :: bool

text \<open>
  The state of one mounted \<^verbatim>\<open>ModelLoader\<close>: the \<^verbatim>\<open>url\<close> property, the three state
  variables, the runs of the effect in the order they were started (the last one is the
  live one), the timers in the order they were created, and the calls made to the two
  callbacks \<^verbatim>\<open>onLoad\<close> and \<^verbatim>\<open>onError\<close> so far. The callbacks keep their identity between
  renders, as the ones the viewer passes do, so that the effect is run again only when
  \<^verbatim>\<open>url\<close> or \<^verbatim>\<open>retryCount\<close> changes.
\<close>

record 'g ModelLoader =
  url :: string
  retryCount :: int
  loader_model :: "'g option"
  modelError :: "string option"
  mounted :: bool
  requests :: "request list"
  timers :: "timer list"
  onLoad_calls :: "'g list"
  onError_calls :: "string list"

definition maxRetries :: int where
  "maxRetries = 3"

text \<open>The body of the effect: start a load of the current URL.\<close>

definition run_effect :: "'g ModelLoader \<Rightarrow> 'g ModelLoader" where
  "run_effect s =
     s\<lparr>requests := requests s @
        [\<lparr>req_url = url s, req_retryCount = retryCount s, canceled = False, settled = False\<rparr>]\<rparr>"

text \<open>The cleanup of the effect: \<^verbatim>\<open>canceled = true\<close> in the live run, and nothing else.\<close>

definition cleanup_effect :: "'g ModelLoader \<Rightarrow> 'g ModelLoader" where
  "cleanup_effect s =
     (if requests s = [] then s
      else s\<lparr>requests := (requests s)
             [length (requests s) - 1 := (last (requests s))\<lparr>canceled := True\<rparr>]\<rparr>)"

text \<open>A render after a dependency of the effect has changed: clean up, then run it again.\<close>

definition rerun_effect :: "'g ModelLoader \<Rightarrow> 'g ModelLoader" where
  "rerun_effect s = run_effect (cleanup_effect s)"

definition ModelLoader_mount :: "string \<Rightarrow> 'g ModelLoader" where
  "ModelLoader_mount u =
     run_effect
       \<lparr>url = u, retryCount = 0, loader_model = None, modelError = None, mounted = True,
        requests = [], timers = [], onLoad_calls = [], onError_calls = []\<rparr>"

text \<open>\<^verbatim>\<open>err instanceof Error ? err.message : "Failed to load model"\<close>\<close>

fun error_message :: "load_failure \<Rightarrow> string" where
  "error_message (ErrorInstance m) = m"
| "error_message (ErrorEvent m) = ''Failed to load model''"

text \<open>The success callback of run \<open>i\<close>.\<close>

definition on_load_success :: "nat \<Rightarrow> 'g \<Rightarrow> 'g ModelLoader \<Rightarrow> 'g ModelLoader" where
  "on_load_success i g s =
     (if \<not> canceled (requests s ! i)
      then s\<lparr>loader_model := Some g, onLoad_calls := onLoad_calls s @ [g]\<rparr>
      else s)"

text \<open>
  The error callback of run \<open>i\<close>. The function it returns after \<^verbatim>\<open>setTimeout\<close> goes back
  to the loader, which does not call it: no timer is ever cleared.
\<close>

definition on_load_error :: "nat \<Rightarrow> load_failure \<Rightarrow> 'g ModelLoader \<Rightarrow> 'g ModelLoader" where
  "on_load_error i err s =
     (if \<not> canceled (requests s ! i) then
        (if req_retryCount (requests s ! i) < maxRetries
         then s\<lparr>timers := timers s @
                  [\<lparr>delay = 1000 * req_retryCount (requests s ! i), fired = False\<rparr>]\<rparr>
         else (let message = error_message err
               in s\<lparr>modelError := Some message,
                    onError_calls := onError_calls s @ [message]\<rparr>))
      else s)"

text \<open>
  The callback of a timer: \<^verbatim>\<open>setRetryCount((prev) => prev + 1)\<close>, whatever the
  \<^verbatim>\<open>canceled\<close> flag of the run that created it. On an unmounted component the update is
  dropped; on a mounted one the retry count changes and the effect is run again.
\<close>

definition on_timer :: "'g ModelLoader \<Rightarrow> 'g ModelLoader" where
  "on_timer s =
     (if mounted s then rerun_effect (s\<lparr>retryCount := retryCount s + 1\<rparr>) else s)"

text \<open>
  What can happen to a mounted loader: run \<open>i\<close> of the effect ends in success or in
  failure (once per run), timer \<open>j\<close> fires (once per timer), the parent passes another
  URL, the parent unmounts the loader.
\<close>

datatype 'g event =
    LoadSucceeds nat 'g
  | LoadFails nat load_failure
  | TimerFires nat
  | UrlChanges string
  | Unmounts

definition settle :: "nat \<Rightarrow> 'g ModelLoader \<Rightarrow> 'g ModelLoader" where
  "settle i s = s\<lparr>requests := (requests s)[i := (requests s ! i)\<lparr>settled := True\<rparr>]\<rparr>"

fun step :: "'g event \<Rightarrow> 'g ModelLoader \<Rightarrow> 'g ModelLoader" where
  "step (LoadSucceeds i g) s =
     (if i < length (requests s) \<and> \<not> settled (requests s ! i)
      then on_load_success i g (settle i s) else s)"
| "step (LoadFails i err) s =
     (if i < length (requests s) \<and> \<not> settled (requests s ! i)
      then on_load_error i err (settle i s) else s)"
| "step (TimerFires j) s =
     (if j < length (timers s) \<and> \<not> fired (timers s ! j)
      then on_timer (s\<lparr>timers := (timers s)[j := (timers s ! j)\<lparr>fired := True\<rparr>]\<rparr>)
      else s)"
| "step (UrlChanges u) s =
     (if mounted s \<and> u \<noteq> url s then rerun_effect (s\<lparr>url := u\<rparr>) else s)"
| "step Unmounts s =
     (if mounted s then (cleanup_effect s)\<lparr>mounted := False\<rparr> else s)"

text \<open>The events of a list, one after the other.\<close>

definition run :: "'g event list \<Rightarrow> 'g ModelLoader \<Rightarrow> 'g ModelLoader" where
  "run es s = fold step es s"

fun is_url_change :: "'g event \<Rightarrow> bool" where
  "is_url_change (UrlChanges _) = True"
| "is_url_change _ = False"

text \<open>The delays of the timers created so far, and the timers that have not fired yet.\<close>

definition scheduled_delays :: "'g ModelLoader \<Rightarrow> int list" where
  "scheduled_delays s = map delay (timers s)"

definition pending_timers :: "'g ModelLoader \<Rightarrow> timer list" where
  "pending_timers s = filter (\<lambda>t. \<not> fired t) (timers s)"



section \<open>Material and lifecycle manager\<close>

text \<open>
  A material value of a mesh is a reference, to one material or to an array of
  materials; \<^verbatim>\<open>===\<close> compares references, which is equality here.
\<close>

datatype material = Material nat | MaterialArray nat

text \<open>The fields of a mesh object that the viewer writes.\<close>

record mesh =
  mesh_material :: material
  castShadow :: bool
  receiveShadow :: bool

text \<open>
  A node of a scene graph with its children. \<open>mesh_of\<close> is the identity of the node when
  it is an instance of \<^verbatim>\<open>THREE.Mesh\<close> and \<open>None\<close> otherwise. \<open>heights\<close> are the Y
  coordinates, measured from the origin of the root of the graph, of the points of this
  node that a bounding box of the graph takes into account.
\<close>

datatype object3d =
  Object3D (mesh_of: "nat option") (heights: "real list") (children: "object3d list")

text \<open>\<^verbatim>\<open>traverse\<close> visits a node, then the graphs of its children, in order.\<close>

fun traverse :: "object3d \<Rightarrow> object3d list" where
  "traverse (Object3D m hs cs) = Object3D m hs cs # concat (map traverse cs)"

text \<open>A loaded graph: the vertical position of its root, which has no parent, and the graph.\<close>

record scene =
  position_y :: number
  root :: object3d

text \<open>
  Modelled from the spec: \<^verbatim>\<open>new THREE.Box3().setFromObject(scene)\<close> is a call into the
  rendering library, for which section 4.2 says "compute the axis-aligned bounding box of
  the whole loaded graph". The box starts empty, with plus infinity as its minimum, and
  is lowered to every point of the graph in turn; a point stands at the position of the
  root plus its height.
\<close>

definition Box3_min_y :: "scene \<Rightarrow> number" where
  "Box3_min_y sc =
     fold (\<lambda>h m. Math_min m (num_plus (position_y sc) (Finite h)))
       (concat (map heights (traverse (root sc)))) PosInfinity"

text \<open>
  The state of one \<^verbatim>\<open>ModelContent\<close>: the \<^verbatim>\<open>model\<close> state variable, the map of recorded
  materials, the shared matte material, and the mesh objects by identity.
\<close>

record ModelContent =
  model :: "scene option"
  materials :: "nat \<rightharpoonup> material"
  matteMaterial :: material
  meshes :: "nat \<Rightarrow> mesh"

text \<open>The callback of the traversal in \<^verbatim>\<open>handleModelLoad\<close>.\<close>

definition swap_material :: "object3d \<Rightarrow> ModelContent \<Rightarrow> ModelContent" where
  "swap_material obj s =
     (case mesh_of obj of
        None \<Rightarrow> s
      | Some i \<Rightarrow>
          s\<lparr>materials := (materials s)(i \<mapsto> mesh_material (meshes s i)),
            meshes := (meshes s)
              (i := (meshes s i)\<lparr>mesh_material := matteMaterial s,
                                 castShadow := True, receiveShadow := True\<rparr>)\<rparr>)"

text \<open>
  \<^verbatim>\<open>handleModelLoad(loadedScene)\<close>. The \<^verbatim>\<open>catch\<close> branch of the source answers to an
  exception of the library calls; none of the operations of the model raises one.
\<close>

definition handleModelLoad :: "scene \<Rightarrow> ModelContent \<Rightarrow> ModelContent" where
  "handleModelLoad loadedScene s =
     (let s1 = fold swap_material (traverse (root loadedScene)) s;
          offsetY = num_neg (Box3_min_y loadedScene);
          moved = loadedScene\<lparr>position_y := num_plus (position_y loadedScene) offsetY\<rparr>
      in s1\<lparr>model := Some moved\<rparr>)"

text \<open>The callback of the traversal in \<^verbatim>\<open>toggleTextures\<close>.\<close>

definition toggle_material :: "object3d \<Rightarrow> ModelContent \<Rightarrow> ModelContent" where
  "toggle_material obj s =
     (case mesh_of obj of
        None \<Rightarrow> s
      | Some i \<Rightarrow>
          (let current = mesh_material (meshes s i);
               next = (if current = matteMaterial s
                       then (case materials s i of Some m \<Rightarrow> m | None \<Rightarrow> current)
                       else matteMaterial s)
           in s\<lparr>meshes := (meshes s)(i := (meshes s i)\<lparr>mesh_material := next\<rparr>)\<rparr>))"

definition toggleTextures :: "ModelContent \<Rightarrow> ModelContent" where
  "toggleTextures s =
     (case model s of
        None \<Rightarrow> s
      | Some m \<Rightarrow> fold toggle_material (traverse (root m)) s)"

text \<open>The identities of the meshes of a graph, in the order of the traversal.\<close>

definition mesh_ids :: "object3d \<Rightarrow> nat list" where
  "mesh_ids g = List.map_filter mesh_of (traverse g)"

text \<open>The points of a loaded graph that its bounding box takes into account.\<close>

definition points :: "scene \<Rightarrow> real list" where
  "points sc = concat (map heights (traverse (root sc)))"

text \<open>What one run of the callback of \<^verbatim>\<open>toggleTextures\<close> assigns to mesh \<open>i\<close>.\<close>

definition toggled :: "ModelContent \<Rightarrow> nat \<Rightarrow> material" where
  "toggled s i =
     (if mesh_material (meshes s i) = matteMaterial s
      then (case materials s i of Some m \<Rightarrow> m | None \<Rightarrow> mesh_material (meshes s i))
      else matteMaterial s)"


section \<open>Auxiliary notions\<close>

text \<open>The message that a value handed to the error callback carries.\<close>

fun underlying_message :: "load_failure \<Rightarrow> string" where
  "underlying_message (ErrorInstance m) = m"
| "underlying_message (ErrorEvent m) = m"

text \<open>
  The live run of the effect, and the invariant of a loader whose URL changes only while
  no timer is pending.
\<close>

definition live :: "'g ModelLoader \<Rightarrow> request" where
  "live s = requests s ! (length (requests s) - 1)"

definition retry_inv :: "'g ModelLoader \<Rightarrow> bool" where
  "retry_inv s \<longleftrightarrow>
     requests s \<noteq> [] \<and> 0 \<le> retryCount s \<and> retryCount s \<le> maxRetries \<and>
     (\<forall>i < length (requests s) - 1. canceled (requests s ! i)) \<and>
     req_retryCount (live s) = retryCount s \<and>
     (\<forall>j < length (timers s). \<not> fired (timers s ! j) \<longrightarrow>
        settled (live s) \<and> retryCount s < maxRetries \<and>
        (\<forall>k < length (timers s). \<not> fired (timers s ! k) \<longrightarrow> k = j))"

text \<open>
  A load in flight: the loader is mounted, the live run of the effect has neither been
  cancelled nor ended, it was started with the retry count \<open>c\<close> that the loader has, and no
  timer is pending.
\<close>

definition in_flight :: "'g ModelLoader \<Rightarrow> int \<Rightarrow> bool" where
  "in_flight s c \<longleftrightarrow>
     mounted s \<and> requests s \<noteq> [] \<and> \<not> canceled (live s) \<and> \<not> settled (live s) \<and>
     req_retryCount (live s) = c \<and> retryCount s = c \<and> pending_timers s = []"

text \<open>A list of events in which the URL changes only while no timer is pending.\<close>

fun calm :: "'g event list \<Rightarrow> 'g ModelLoader \<Rightarrow> bool" where
  "calm [] s = True"
| "calm (e # es) s =
     ((if is_url_change e then pending_timers s = [] else True) \<and> calm es (step e s))"

text \<open>
  The viewer hands \<^verbatim>\<open>handleModelLoad\<close> to the loader as its \<^verbatim>\<open>onLoad\<close>: the content
  manager after the calls of \<^verbatim>\<open>onLoad\<close> that the loader has made.
\<close>

definition deliver :: "scene list \<Rightarrow> ModelContent \<Rightarrow> ModelContent" where
  "deliver calls c = fold handleModelLoad calls c"

text \<open>
  A small graph and a fresh content manager to run the operations on: a group at height
  4 with two meshes, the second of which carries an array of materials.
\<close>

definition sample_scene :: scene where
  "sample_scene =
     \<lparr>position_y = Finite 4,
      root = Object3D None []
               [Object3D (Some 0) [1, 3] [], Object3D (Some 1) [- 2, 1 / 2] []]\<rparr>"

text \<open>A graph of two groups, without any geometry.\<close>

definition bare_scene :: scene where
  "bare_scene = \<lparr>position_y = Finite 0, root = Object3D None [] [Object3D None [] []]\<rparr>"

definition sample_content :: ModelContent where
  "sample_content =
     \<lparr>model = None, materials = Map.empty, matteMaterial = Material 0,
      meshes = (\<lambda>i. \<lparr>mesh_material = (if i = 1 then MaterialArray 7 else Material (Suc i)),
                      castShadow = False, receiveShadow = False\<rparr>)\<rparr>"


section \<open>Properties of the colour conversion\<close>

lemma min_max_is_clamp:
  "Math_min (Finite 255) (Math_max (Finite 0) x) = clamp x (Finite 0) (Finite 255)"
  by (cases x) (simp_all add: clamp_def)

lemma min_max_in_channel_range:
  "in_channel_range (Math_min (Finite 255) (Math_max (Finite 0) (Finite x)))"
  by simp

lemma Math_log_pos: "0 < x \<Longrightarrow> Math_log x = Finite (ln x)"
  by (simp add: Math_log_def)

lemma Math_pow_pos: "0 < x \<Longrightarrow> Math_pow x y = Finite (x powr y)"
  by (simp add: Math_pow_def)

text \<open>
  Claim C1. With \<open>v = kelvin / 100\<close>: for \<open>v \<le> 66\<close> the conversion yields red 255, green
  the clamp to \<open>[0, 255]\<close> of \<open>99.4708025861 * ln v - 161.1195681661\<close>, and blue 0 for
  \<open>v \<le> 19\<close> and the clamp of \<open>138.5177312231 * ln (v - 10) - 305.0447927307\<close> otherwise;
  for \<open>v > 66\<close> it yields red the clamp of \<open>329.698727446 * (v - 60) ^ (- 0.1332047592)\<close>,
  green the clamp of \<open>288.1221695283 * (v - 60) ^ (- 0.0755148492)\<close>, and blue 255; for
  every finite temperature. The logarithm of the green channel is the one of the script,
  which has a value at and below zero as well and is the natural logarithm above zero.
\<close>

theorem tempToColor_piecewise:
  "(k / 100 \<le> 66 \<longrightarrow>
      tempToColor k =
        (Finite 255,
         clamp (num_minus (num_times (Finite 99.4708025861) (Math_log (k / 100)))
                  (Finite 161.1195681661)) (Finite 0) (Finite 255),
         if k / 100 \<le> 19 then Finite 0
         else clamp (Finite (138.5177312231 * ln (k / 100 - 10) - 305.0447927307))
                (Finite 0) (Finite 255))) \<and>
   (66 < k / 100 \<longrightarrow>
      tempToColor k =
        (clamp (Finite (329.698727446 * (k / 100 - 60) powr (- 0.1332047592)))
           (Finite 0) (Finite 255),
         clamp (Finite (288.1221695283 * (k / 100 - 60) powr (- 0.0755148492)))
           (Finite 0) (Finite 255),
         Finite 255)) \<and>
   (0 < k \<longrightarrow> Math_log (k / 100) = Finite (ln (k / 100)))"
proof (intro conjI impI)
  assume low: "k / 100 \<le> 66"
  have blue: "Math_log (k / 100 - 10) = Finite (ln (k / 100 - 10))" if "\<not> k / 100 \<le> 19"
    using that by (intro Math_log_pos) simp
  show "tempToColor k =
        (Finite 255,
         clamp (num_minus (num_times (Finite 99.4708025861) (Math_log (k / 100)))
                  (Finite 161.1195681661)) (Finite 0) (Finite 255),
         if k / 100 \<le> 19 then Finite 0
         else clamp (Finite (138.5177312231 * ln (k / 100 - 10) - 305.0447927307))
                (Finite 0) (Finite 255))"
    unfolding tempToColor_def Let_def min_max_is_clamp
    using low blue by (simp add: num_minus_def)
next
  assume high: "66 < k / 100"
  have base: "Math_pow (k / 100 - 60) y = Finite ((k / 100 - 60) powr y)" for y
    using high by (intro Math_pow_pos) simp
  show "tempToColor k =
        (clamp (Finite (329.698727446 * (k / 100 - 60) powr (- 0.1332047592)))
           (Finite 0) (Finite 255),
         clamp (Finite (288.1221695283 * (k / 100 - 60) powr (- 0.0755148492)))
           (Finite 0) (Finite 255),
         Finite 255)"
    unfolding tempToColor_def Let_def min_max_is_clamp base
    using high by simp
next
  assume "0 < k"
  then show "Math_log (k / 100) = Finite (ln (k / 100))"
    by (intro Math_log_pos) simp
qed

theorem tempToColor_piecewise_witness:
  "(6500::real) / 100 \<le> 66 \<and> \<not> (6500::real) / 100 \<le> 19 \<and> (0::real) < 6500 \<and>
   Math_log (6500 / 100) = Finite (ln (6500 / 100)) \<and>
   tempToColor 6500 =
     (Finite 255,
      clamp (num_minus (num_times (Finite 99.4708025861) (Math_log (6500 / 100)))
               (Finite 161.1195681661)) (Finite 0) (Finite 255),
      clamp (Finite (138.5177312231 * ln (6500 / 100 - 10) - 305.0447927307))
        (Finite 0) (Finite 255)) \<and>
   (66::real) < 7000 / 100 \<and>
   tempToColor 7000 =
     (clamp (Finite (329.698727446 * (7000 / 100 - 60) powr (- 0.1332047592)))
        (Finite 0) (Finite 255),
      clamp (Finite (288.1221695283 * (7000 / 100 - 60) powr (- 0.0755148492)))
        (Finite 0) (Finite 255),
      Finite 255)"
  using tempToColor_piecewise [of 6500] tempToColor_piecewise [of 7000] by simp

text \<open>
  Claim C8. For every temperature between 2000 and 10000 Kelvin, each of the red, green
  and blue channels of the conversion is a finite value between 0 and 255.
\<close>

theorem tempToColor_channel_range:
  assumes "2000 \<le> k" and "k \<le> 10000"
  shows "case tempToColor k of (red, green, blue) \<Rightarrow>
           in_channel_range red \<and> in_channel_range green \<and> in_channel_range blue"
proof -
  have v: "0 < k / 100" using assms by simp
  have g: "Math_log (k / 100) = Finite (ln (k / 100))" using v by (rule Math_log_pos)
  have b: "Math_log (k / 100 - 10) = Finite (ln (k / 100 - 10))"
    using assms by (intro Math_log_pos) simp
  have p: "Math_pow (k / 100 - 60) y = Finite ((k / 100 - 60) powr y)" if "66 < k / 100" for y
    using that by (intro Math_pow_pos) simp
  show ?thesis
  proof (cases "k / 100 \<le> 66")
    case True
    then show ?thesis
      unfolding tempToColor_def Let_def g b
      by (simp only: if_True num_times.simps num_minus_def num_neg.simps num_plus.simps
            min_max_in_channel_range split: prod.splits if_splits) simp
  next
    case False
    then have "66 < k / 100" by simp
    from p [OF this] False show ?thesis
      unfolding tempToColor_def Let_def
      by (simp only: if_False num_times.simps min_max_in_channel_range split: prod.splits) simp
  qed
qed

theorem tempToColor_channel_range_witness:
  "(2000::real) \<le> 6500 \<and> (6500::real) \<le> 10000 \<and>
   (case tempToColor 6500 of (red, green, blue) \<Rightarrow>
      in_channel_range red \<and> in_channel_range green \<and> in_channel_range blue)"
  using tempToColor_channel_range [of 6500] by simp


section \<open>Properties of the light controller\<close>

lemma max_min_is_clamp_real:
  "lo \<le> hi \<Longrightarrow> max lo (min hi x) = clamp_real x lo hi"
  by (auto simp add: clamp_real_def)

lemma updater_adjust:
  "temperature (updater True sx sy prev) = clamp_real (temperature prev + sx * 100) 2000 10000"
  "intensity (updater True sx sy prev) = clamp_real (intensity prev - sy) 0 6"
  "position (updater True sx sy prev) = position prev"
  unfolding updater_def Let_def
  by (simp_all add: max_min_is_clamp_real [symmetric])

lemma render_move_in_mode:
  assumes "isAdjusting s"
  shows "lightState (render (handleMouseMove e s)) =
           updater True ((clientX e - fst (prevPos s)) * 0.05)
             ((clientY e - snd (prevPos s)) * 0.05) (lightState (render s))"
  using assms
  by (simp add: render_def handleMouseMove_def setLightState_def Let_def)

text \<open>
  A pointer-move whose update is applied while the drag is still in Adjust mode changes
  the light as the specification says.
\<close>

lemma adjust_move_rendered_in_mode:
  assumes "isAdjusting s"
  shows "temperature (lightState (render (handleMouseMove e s))) =
           clamp_real (temperature (lightState (render s)) +
                       (clientX e - fst (prevPos s)) * 0.05 * 100) 2000 10000"
    and "intensity (lightState (render (handleMouseMove e s))) =
           clamp_real (intensity (lightState (render s)) -
                       (clientY e - snd (prevPos s)) * 0.05) 0 6"
    and "position (lightState (render (handleMouseMove e s))) = position (lightState (render s))"
  unfolding render_move_in_mode [OF assms] updater_adjust by (rule refl)+

lemma single_adjust_move:
  "lightState
     (render
        (handleMouseMove \<lparr>shiftKey = True, altKey = True, clientX = 110, clientY = 80\<rparr>
           (handleMouseDown \<lparr>shiftKey = True, altKey = True, clientX = 100, clientY = 100\<rparr>
              (MovableLight_mount None)))) =
     \<lparr>position = (2, 2, 2), intensity = 2, temperature = 6550\<rparr>"
  by (simp add: render_def handleMouseMove_def setLightState_def
        handleMouseDown_def MovableLight_mount_def INITIAL_LIGHT_STATE_def updater_def Let_def)

lemma adjust_moves_rendered_before_mouse_up:
  "lightState
     (handleMouseUp
        (render
           (handleMouseMove \<lparr>shiftKey = True, altKey = True, clientX = 115, clientY = 70\<rparr>
              (handleMouseMove \<lparr>shiftKey = True, altKey = True, clientX = 105, clientY = 90\<rparr>
                 (handleMouseDown \<lparr>shiftKey = True, altKey = True, clientX = 100, clientY = 100\<rparr>
                    (MovableLight_mount None)))))) =
     \<lparr>position = (2, 2, 2), intensity = 5 / 2, temperature = 6575\<rparr>"
  by (simp add: render_def handleMouseUp_def handleMouseMove_def setLightState_def
        handleMouseDown_def MovableLight_mount_def INITIAL_LIGHT_STATE_def updater_def Let_def)

text \<open>
  Claim C7, on the controller as it is. A drag is started at \<open>(100, 100)\<close> with both
  modifiers held, from intensity 1 and temperature 6500; the pointer moves to
  \<open>(105, 90)\<close> and then by \<open>(10, - 20)\<close> to \<open>(115, 70)\<close>, and the button is released before
  the component is rendered. The function of the second update reads the Adjust flag at
  the render, after the release has cleared it: the move by \<open>(10, - 20)\<close> changes the
  position to \<open>(2.5, 3, 2)\<close> and leaves temperature and intensity at 6525 and 1.5, where
  the claim gives 6575, 2.5 and an unchanged position.
\<close>

theorem adjust_move_applied_after_mouse_up:
  "lightState
     (render
        (handleMouseUp
           (handleMouseMove \<lparr>shiftKey = True, altKey = True, clientX = 115, clientY = 70\<rparr>
              (handleMouseMove \<lparr>shiftKey = True, altKey = True, clientX = 105, clientY = 90\<rparr>
                 (handleMouseDown \<lparr>shiftKey = True, altKey = True, clientX = 100, clientY = 100\<rparr>
                    (MovableLight_mount None)))))) =
     \<lparr>position = (5 / 2, 3, 2), intensity = 3 / 2, temperature = 6525\<rparr>"
  by (simp add: render_def handleMouseUp_def handleMouseMove_def setLightState_def
        handleMouseDown_def MovableLight_mount_def INITIAL_LIGHT_STATE_def updater_def Let_def)


section \<open>Properties of the asset loader\<close>

lemmas loader_simps =
  run_def ModelLoader_mount_def run_effect_def cleanup_effect_def rerun_effect_def
  on_load_success_def on_load_error_def on_timer_def settle_def maxRetries_def
  scheduled_delays_def pending_timers_def Let_def nth_Cons' nth_append

subsection \<open>The retry count while no timer outlives its URL\<close>

lemma mount_inv: "retry_inv (ModelLoader_mount u)"
  by (simp add: retry_inv_def live_def ModelLoader_mount_def run_effect_def maxRetries_def)

lemma succeeds_inv: "retry_inv s \<Longrightarrow> retry_inv (step (LoadSucceeds i g) s)"
  by (auto simp add: retry_inv_def live_def on_load_success_def settle_def nth_list_update)

lemma fails_inv: "retry_inv s \<Longrightarrow> retry_inv (step (LoadFails i err) s)"
  by (auto simp add: retry_inv_def live_def on_load_error_def settle_def nth_list_update
        nth_append Let_def)

lemma timer_inv: "retry_inv s \<Longrightarrow> retry_inv (step (TimerFires j) s)"
  by (auto simp add: retry_inv_def live_def on_timer_def rerun_effect_def run_effect_def
        cleanup_effect_def nth_list_update nth_append last_conv_nth)

lemma unmount_inv: "retry_inv s \<Longrightarrow> retry_inv (step Unmounts s)"
  by (auto simp add: retry_inv_def live_def cleanup_effect_def nth_list_update last_conv_nth)

lemma no_pending_all_fired:
  "pending_timers s = [] \<Longrightarrow> j < length (timers s) \<Longrightarrow> fired (timers s ! j)"
  by (auto simp add: pending_timers_def filter_empty_conv)

lemma url_inv:
  assumes "retry_inv s" and "pending_timers s = []"
  shows "retry_inv (step (UrlChanges u) s)"
  using assms(1) no_pending_all_fired [OF assms(2)]
  by (auto simp add: retry_inv_def live_def rerun_effect_def run_effect_def
        cleanup_effect_def nth_list_update nth_append last_conv_nth)

lemma step_inv:
  "retry_inv s \<Longrightarrow> (if is_url_change e then pending_timers s = [] else True) \<Longrightarrow>
   retry_inv (step e s)"
  by (cases e) (simp_all add: succeeds_inv fails_inv timer_inv unmount_inv url_inv
        del: step.simps)

lemma run_inv: "retry_inv s \<Longrightarrow> calm es s \<Longrightarrow> retry_inv (run es s)"
  unfolding run_def
  by (induction es arbitrary: s) (simp_all add: step_inv del: step.simps)

lemma step_nonneg: "0 \<le> retryCount s \<Longrightarrow> 0 \<le> retryCount (step e s)"
  by (cases e)
     (auto simp add: on_load_success_def on_load_error_def settle_def on_timer_def
        rerun_effect_def run_effect_def cleanup_effect_def Let_def)

lemma run_nonneg: "0 \<le> retryCount s \<Longrightarrow> 0 \<le> retryCount (run es s)"
  unfolding run_def
  by (induction es arbitrary: s) (simp_all add: step_nonneg del: step.simps)

lemma url_change_retryCount: "retryCount (step (UrlChanges u) s) = retryCount s"
  by (simp add: rerun_effect_def run_effect_def cleanup_effect_def)

text \<open>
  Claim C3, as stated: the retry counter is reset whenever the source URL changes. It is
  not: a loader that has retried once and is handed another URL goes on with a count of 1.
\<close>

theorem retry_count_reset_counterexample:
  "url (run [LoadFails 0 (ErrorInstance ''e''), TimerFires 0, UrlChanges ''b.glb'']
          (ModelLoader_mount ''a.glb'' :: scene ModelLoader)) = ''b.glb'' \<and>
   retryCount
     (run [LoadFails 0 (ErrorInstance ''e''), TimerFires 0, UrlChanges ''b.glb'']
        (ModelLoader_mount ''a.glb'' :: scene ModelLoader)) = 1 \<and>
   retryCount
     (run [LoadFails 0 (ErrorInstance ''e''), TimerFires 0, UrlChanges ''b.glb'']
        (ModelLoader_mount ''a.glb'' :: scene ModelLoader)) \<noteq> 0"
  by (simp add: loader_simps)

text \<open>
  Claim C3, amended. The retry counter is 0 when the loader is mounted and an integer of
  at least 0 ever after; it is at most \<open>maxRetries = 3\<close> after every list of events in
  which the URL changes only while no retry timer is pending, whatever loads end, timers
  fire or unmounting happens; and a change of the URL leaves the counter as it is.
\<close>

theorem retry_count_bounded:
  assumes "calm es (ModelLoader_mount u)"
  shows "retryCount (ModelLoader_mount u) = 0 \<and>
         0 \<le> retryCount (run any (ModelLoader_mount u)) \<and>
         retryCount (run es (ModelLoader_mount u)) \<le> maxRetries \<and>
         maxRetries = 3 \<and>
         retryCount (step (UrlChanges u') s) = retryCount s"
proof -
  from run_inv [OF mount_inv assms] have "retry_inv (run es (ModelLoader_mount u))" .
  then have "retryCount (run es (ModelLoader_mount u)) \<le> maxRetries"
    by (simp add: retry_inv_def)
  moreover have zero: "retryCount (ModelLoader_mount u) = 0"
    by (simp add: ModelLoader_mount_def run_effect_def)
  moreover have "0 \<le> retryCount (run any (ModelLoader_mount u))"
    by (rule run_nonneg) (simp add: zero)
  ultimately show ?thesis
    by (simp add: url_change_retryCount maxRetries_def del: step.simps)
qed

theorem retry_count_bounded_witness:
  "calm [LoadFails 0 (ErrorInstance ''e''), TimerFires 0, UrlChanges ''b.glb'',
         LoadFails 2 (ErrorInstance ''e''), TimerFires 1, LoadFails 3 (ErrorInstance ''e''),
         TimerFires 2, LoadFails 4 (ErrorInstance ''e''), Unmounts]
     (ModelLoader_mount ''a.glb'' :: scene ModelLoader) \<and>
   retryCount
     (run [LoadFails 0 (ErrorInstance ''e''), TimerFires 0, UrlChanges ''b.glb'',
           LoadFails 2 (ErrorInstance ''e''), TimerFires 1, LoadFails 3 (ErrorInstance ''e''),
           TimerFires 2, LoadFails 4 (ErrorInstance ''e''), Unmounts]
        (ModelLoader_mount ''a.glb'' :: scene ModelLoader)) \<le> maxRetries"
proof -
  have h: "calm [LoadFails 0 (ErrorInstance ''e''), TimerFires 0, UrlChanges ''b.glb'',
         LoadFails 2 (ErrorInstance ''e''), TimerFires 1, LoadFails 3 (ErrorInstance ''e''),
         TimerFires 2, LoadFails 4 (ErrorInstance ''e''), Unmounts]
     (ModelLoader_mount ''a.glb'' :: scene ModelLoader)"
    by (simp add: loader_simps)
  from retry_count_bounded [OF h] h show ?thesis by blast
qed

subsection \<open>Timers outlive the run that created them\<close>

text \<open>
  Claim C4, on the loader as it is: a load of \<open>a.glb\<close> fails for the second time and
  schedules a retry after 1000 ms; the URL changes to \<open>b.glb\<close> before the timer fires.
  The change cancels the run for \<open>a.glb\<close>, yet its timer stays pending, and when it fires
  it raises the retry count of the session for \<open>b.glb\<close> from 1 to 2, cancels the load of
  \<open>b.glb\<close> that is in flight and starts another one.
\<close>

theorem stale_timer_fires_after_url_change:
  "let before = run [LoadFails 0 (ErrorInstance ''e''), TimerFires 0,
                     LoadFails 1 (ErrorInstance ''e''), UrlChanges ''b.glb'']
                  (ModelLoader_mount ''a.glb'' :: scene ModelLoader);
       after = step (TimerFires 1) before
   in url before = ''b.glb'' \<and> retryCount before = 1 \<and>
      map canceled (requests before) = [True, True, False] \<and>
      map req_url (requests before) = [''a.glb'', ''a.glb'', ''b.glb''] \<and>
      pending_timers before = [\<lparr>delay = 1000, fired = False\<rparr>] \<and>
      retryCount after = 2 \<and>
      map canceled (requests after) = [True, True, True, False] \<and>
      map req_url (requests after) = [''a.glb'', ''a.glb'', ''b.glb'', ''b.glb'']"
  by (simp add: loader_simps)

text \<open>
  With two such timers pending at once the retry count passes \<open>maxRetries\<close>.
\<close>

lemma stale_timers_pass_maxRetries:
  "retryCount
     (run [LoadFails 0 (ErrorInstance ''e''), TimerFires 0,
           LoadFails 1 (ErrorInstance ''e''), TimerFires 1,
           LoadFails 2 (ErrorInstance ''e''), UrlChanges ''b.glb'',
           LoadFails 3 (ErrorInstance ''e''), TimerFires 2, TimerFires 3]
        (ModelLoader_mount ''a.glb'' :: scene ModelLoader)) = 4"
  by (simp add: loader_simps)

text \<open>
  The callbacks of a load, for their part, are suppressed once the run is cancelled:
  a load that ends after a change of the URL or after unmounting changes nothing but its
  own \<open>settled\<close> mark.
\<close>

lemma cancelled_load_is_suppressed:
  assumes "i < length (requests s)" and "canceled (requests s ! i)"
  shows "step (LoadSucceeds i g) s = (if settled (requests s ! i) then s else settle i s)"
    and "step (LoadFails i err) s = (if settled (requests s ! i) then s else settle i s)"
  using assms
  by (simp_all add: on_load_success_def on_load_error_def settle_def)

subsection \<open>Three failures and a success, four failures\<close>

lemma mount_in_flight: "in_flight (ModelLoader_mount u) 0"
  by (simp add: in_flight_def live_def ModelLoader_mount_def run_effect_def pending_timers_def)

lemma retry_step:
  assumes "in_flight s c" and "c < maxRetries"
    and "s' = step (TimerFires (length (timers s)))
                (step (LoadFails (length (requests s) - 1) e) s)"
  shows "in_flight s' (c + 1)"
    and "onError_calls s' = onError_calls s"
    and "onLoad_calls s' = onLoad_calls s"
    and "scheduled_delays s' = scheduled_delays s @ [1000 * c]"
    and "length (requests s') = length (requests s) + 1"
    and "length (timers s') = length (timers s) + 1"
  using assms
  by (auto simp add: in_flight_def live_def pending_timers_def scheduled_delays_def
        on_load_error_def settle_def on_timer_def rerun_effect_def run_effect_def
        cleanup_effect_def nth_list_update nth_append last_conv_nth)

lemma last_failure:
  assumes "in_flight s c" and "\<not> c < maxRetries"
    and "s' = step (LoadFails (length (requests s) - 1) e) s"
  shows "onError_calls s' = onError_calls s @ [error_message e]"
    and "onLoad_calls s' = onLoad_calls s"
    and "timers s' = timers s"
    and "retryCount s' = retryCount s"
    and "modelError s' = Some (error_message e)"
  using assms
  by (auto simp add: in_flight_def live_def on_load_error_def settle_def Let_def)

lemma success:
  assumes "in_flight s c"
    and "s' = step (LoadSucceeds (length (requests s) - 1) g) s"
  shows "onError_calls s' = onError_calls s"
    and "onLoad_calls s' = onLoad_calls s @ [g]"
    and "timers s' = timers s"
    and "loader_model s' = Some g"
  using assms
  by (auto simp add: in_flight_def live_def on_load_success_def settle_def)

lemma fresh_load_three_retries:
  assumes "in_flight s 0"
    and "n = length (requests s) - 1" and "m = length (timers s)"
    and "s3 = run [LoadFails n e1, TimerFires m, LoadFails (n + 1) e2, TimerFires (m + 1),
                   LoadFails (n + 2) e3, TimerFires (m + 2)] s"
  shows "in_flight s3 3"
    and "onError_calls s3 = onError_calls s"
    and "onLoad_calls s3 = onLoad_calls s"
    and "scheduled_delays s3 = scheduled_delays s @ [0, 1000, 2000]"
    and "length (requests s3) - 1 = n + 3"
    and "timers s3 \<noteq> [] \<and> length (timers s3) = m + 3"
proof -
  define s1 where "s1 = step (TimerFires m) (step (LoadFails n e1) s)"
  define s2 where "s2 = step (TimerFires (m + 1)) (step (LoadFails (n + 1) e2) s1)"
  from assms(1) have ne: "requests s \<noteq> []" by (simp add: in_flight_def)
  have three: "(0::int) < maxRetries" "(0::int) + 1 < maxRetries" "(0::int) + 1 + 1 < maxRetries"
    by (simp_all add: maxRetries_def)
  have e1: "s1 = step (TimerFires (length (timers s)))
                   (step (LoadFails (length (requests s) - 1) e1) s)"
    by (simp only: s1_def assms(2,3))
  note a1 = retry_step [OF assms(1) three(1) e1]
  have n1: "length (requests s1) - 1 = n + 1" and m1: "length (timers s1) = m + 1"
    using a1(5,6) ne by (simp_all only: assms(2,3)) (cases "requests s"; simp)
  have e2: "s2 = step (TimerFires (length (timers s1)))
                   (step (LoadFails (length (requests s1) - 1) e2) s1)"
    by (simp only: s2_def n1 m1)
  note a2 = retry_step [OF a1(1) three(2) e2]
  have n2: "length (requests s2) - 1 = n + 2" and m2: "length (timers s2) = m + 2"
    using a2(5,6) n1 m1 a1(5) by simp_all
  have "s3 = step (TimerFires (m + 2)) (step (LoadFails (n + 2) e3) s2)"
    by (simp only: assms(4) run_def fold_simps s2_def s1_def o_apply id_apply)
  then have e3: "s3 = step (TimerFires (length (timers s2)))
                        (step (LoadFails (length (requests s2) - 1) e3) s2)"
    by (simp only: n2 m2)
  note a3 = retry_step [OF a2(1) three(3) e3]
  from a3(1) show "in_flight s3 3" by simp
  from a1(2) a2(2) a3(2) show "onError_calls s3 = onError_calls s" by simp
  from a1(3) a2(3) a3(3) show "onLoad_calls s3 = onLoad_calls s" by simp
  from a1(4) a2(4) a3(4) show "scheduled_delays s3 = scheduled_delays s @ [0, 1000, 2000]"
    by simp
  from a3(5) n2 a2(5) show "length (requests s3) - 1 = n + 3" by simp
  from a3(6) m2 show "timers s3 \<noteq> [] \<and> length (timers s3) = m + 3" by auto
qed

lemma run_snoc: "run (es @ [e]) s = step e (run es s)"
  by (simp add: run_def)

text \<open>
  A load that starts with the retry count at 0 and no timer pending, as at mount, fails
  three times and succeeds at the fourth attempt: \<open>onError\<close> is not called, \<open>onLoad\<close> is
  called once, and the retries are scheduled after 0 ms, 1000 ms and 2000 ms.
\<close>

lemma fresh_load_three_failures_then_success:
  fixes s :: "'g ModelLoader"
  assumes "in_flight s 0"
  shows "let n = length (requests s) - 1;
             m = length (timers s);
             s' = run [LoadFails n e1, TimerFires m, LoadFails (n + 1) e2, TimerFires (m + 1),
                       LoadFails (n + 2) e3, TimerFires (m + 2), LoadSucceeds (n + 3) g] s
         in onError_calls s' = onError_calls s \<and>
            onLoad_calls s' = onLoad_calls s @ [g] \<and>
            scheduled_delays s' = scheduled_delays s @ [0, 1000, 2000]"
proof -
  define n where "n = length (requests s) - 1"
  define m where "m = length (timers s)"
  define s3 where "s3 = run [LoadFails n e1, TimerFires m, LoadFails (n + 1) e2,
                            TimerFires (m + 1), LoadFails (n + 2) e3, TimerFires (m + 2)] s"
  define s' where "s' = step (LoadSucceeds (n + 3) g) s3"
  note f = fresh_load_three_retries [OF assms n_def m_def s3_def]
  have e': "s' = step (LoadSucceeds (length (requests s3) - 1) g) s3"
    by (simp only: s'_def f(5))
  note l = success [OF f(1) e']
  have run: "run [LoadFails n e1, TimerFires m, LoadFails (n + 1) e2, TimerFires (m + 1),
                  LoadFails (n + 2) e3, TimerFires (m + 2), LoadSucceeds (n + 3) g] s = s'"
    using run_snoc [of "[LoadFails n e1, TimerFires m, LoadFails (n + 1) e2, TimerFires (m + 1),
                  LoadFails (n + 2) e3, TimerFires (m + 2)]" "LoadSucceeds (n + 3) g" s]
    by (simp add: s'_def s3_def del: step.simps)
  have "onError_calls s' = onError_calls s" using l(1) f(2) by simp
  moreover have "onLoad_calls s' = onLoad_calls s @ [g]" using l(2) f(3) by simp
  moreover have "scheduled_delays s' = scheduled_delays s @ [0, 1000, 2000]"
    using l(3) f(4) by (simp add: scheduled_delays_def)
  ultimately show ?thesis
    unfolding Let_def n_def [symmetric] m_def [symmetric] run by simp
qed

text \<open>
  Claim C5, on the loader as it is. The second load of \<open>a.glb\<close> fails and schedules a
  retry after 1000 ms; the URL changes to \<open>b.glb\<close> while that timer is pending. The load
  of \<open>b.glb\<close> then fails three times and succeeds at its fourth attempt, the second of
  which is started by the timer left over from \<open>a.glb\<close>: \<open>onError\<close> is called, with the
  message of the third failure, and the attempts 2, 3 and 4 of \<open>b.glb\<close> follow timers of
  1000 ms, 1000 ms and 2000 ms.
\<close>

theorem stale_timer_breaks_three_failures_then_success:
  "let s = run [LoadFails 0 (ErrorInstance ''a1''), TimerFires 0,
                LoadFails 1 (ErrorInstance ''a2''), UrlChanges ''b.glb'',
                LoadFails 2 (ErrorInstance ''b1''), TimerFires 1,
                LoadFails 3 (ErrorInstance ''b2''), TimerFires 2,
                LoadFails 4 (ErrorInstance ''b3''), TimerFires 3,
                LoadSucceeds 5 sample_scene]
             (ModelLoader_mount ''a.glb'')
   in map req_url (requests s) = [''a.glb'', ''a.glb'', ''b.glb'', ''b.glb'', ''b.glb'', ''b.glb''] \<and>
      map req_retryCount (requests s) = [0, 1, 1, 2, 3, 4] \<and>
      onError_calls s = [''b3''] \<and> onLoad_calls s = [sample_scene] \<and>
      scheduled_delays s = [0, 1000, 1000, 2000]"
  by (simp add: loader_simps)

text \<open>
  Claim C6, as stated: after four failures the argument of \<open>onError\<close> is the message of
  the last error. When that error is no instance of \<^verbatim>\<open>Error\<close>, it is not.
\<close>

theorem four_failures_message_counterexample:
  "onError_calls
     (run [LoadFails 0 (ErrorEvent ''offline''), TimerFires 0,
           LoadFails 1 (ErrorEvent ''offline''), TimerFires 1,
           LoadFails 2 (ErrorEvent ''offline''), TimerFires 2,
           LoadFails 3 (ErrorEvent ''offline'')]
        (ModelLoader_mount ''a.glb'' :: scene ModelLoader))
     = [''Failed to load model''] \<and>
   onError_calls
     (run [LoadFails 0 (ErrorEvent ''offline''), TimerFires 0,
           LoadFails 1 (ErrorEvent ''offline''), TimerFires 1,
           LoadFails 2 (ErrorEvent ''offline''), TimerFires 2,
           LoadFails 3 (ErrorEvent ''offline'')]
        (ModelLoader_mount ''a.glb'' :: scene ModelLoader))
     \<noteq> [underlying_message (ErrorEvent ''offline'')]"
  by (simp add: loader_simps)

text \<open>
  Claim C6, amended. When a load that starts with the retry count at 0 and no retry timer
  pending, as at mount, fails four times in a row, \<open>onError\<close> is called exactly once; its
  argument is the message of the last error when that error is an instance of
  \<^verbatim>\<open>Error\<close>, and the fixed message \<open>Failed to load model\<close> otherwise; \<open>onLoad\<close> is not called,
  three retries have been scheduled, after 0 ms, 1000 ms and 2000 ms, and none is pending.
\<close>

theorem four_failures_report_once:
  fixes s :: "'g ModelLoader"
  assumes "in_flight s 0"
  shows "let n = length (requests s) - 1;
             m = length (timers s);
             s' = run [LoadFails n e1, TimerFires m, LoadFails (n + 1) e2, TimerFires (m + 1),
                       LoadFails (n + 2) e3, TimerFires (m + 2), LoadFails (n + 3) e4] s
         in onError_calls s' =
              onError_calls s @
                [case e4 of ErrorInstance msg \<Rightarrow> msg | ErrorEvent msg \<Rightarrow> ''Failed to load model''] \<and>
            onLoad_calls s' = onLoad_calls s \<and>
            scheduled_delays s' = scheduled_delays s @ [0, 1000, 2000] \<and>
            pending_timers s' = [] \<and> retryCount s' = 3"
proof -
  define n where "n = length (requests s) - 1"
  define m where "m = length (timers s)"
  define s3 where "s3 = run [LoadFails n e1, TimerFires m, LoadFails (n + 1) e2,
                            TimerFires (m + 1), LoadFails (n + 2) e3, TimerFires (m + 2)] s"
  define s' where "s' = step (LoadFails (n + 3) e4) s3"
  note f = fresh_load_three_retries [OF assms n_def m_def s3_def]
  have last: "\<not> (3::int) < maxRetries" by (simp add: maxRetries_def)
  have e': "s' = step (LoadFails (length (requests s3) - 1) e4) s3"
    by (simp only: s'_def f(5))
  note l = last_failure [OF f(1) last e']
  from f(1) have p3: "pending_timers s3 = []" and r3: "retryCount s3 = 3"
    by (simp_all add: in_flight_def)
  have run: "run [LoadFails n e1, TimerFires m, LoadFails (n + 1) e2, TimerFires (m + 1),
                  LoadFails (n + 2) e3, TimerFires (m + 2), LoadFails (n + 3) e4] s = s'"
    using run_snoc [of "[LoadFails n e1, TimerFires m, LoadFails (n + 1) e2, TimerFires (m + 1),
                  LoadFails (n + 2) e3, TimerFires (m + 2)]" "LoadFails (n + 3) e4" s]
    by (simp add: s'_def s3_def del: step.simps)
  have msg: "error_message e4 =
             (case e4 of ErrorInstance msg \<Rightarrow> msg | ErrorEvent msg \<Rightarrow> ''Failed to load model'')"
    by (cases e4) simp_all
  have "onError_calls s' = onError_calls s @ [error_message e4]" using l(1) f(2) by simp
  moreover have "onLoad_calls s' = onLoad_calls s" using l(2) f(3) by simp
  moreover have "scheduled_delays s' = scheduled_delays s @ [0, 1000, 2000]"
    using l(3) f(4) by (simp add: scheduled_delays_def)
  moreover have "pending_timers s' = []" using l(3) p3 by (simp add: pending_timers_def)
  moreover have "retryCount s' = 3" using l(4) r3 by simp
  ultimately show ?thesis
    unfolding Let_def n_def [symmetric] m_def [symmetric] run msg [symmetric] by simp
qed

theorem four_failures_report_once_witness:
  "in_flight (ModelLoader_mount ''a.glb'' :: scene ModelLoader) 0 \<and>
   (let n = length (requests (ModelLoader_mount ''a.glb'' :: scene ModelLoader)) - 1;
        m = length (timers (ModelLoader_mount ''a.glb'' :: scene ModelLoader));
        s' = run [LoadFails n (ErrorInstance ''e1''), TimerFires m,
                  LoadFails (n + 1) (ErrorEvent ''e2''), TimerFires (m + 1),
                  LoadFails (n + 2) (ErrorInstance ''e3''), TimerFires (m + 2),
                  LoadFails (n + 3) (ErrorInstance ''e4'')]
               (ModelLoader_mount ''a.glb'' :: scene ModelLoader)
    in onError_calls s' =
         onError_calls (ModelLoader_mount ''a.glb'' :: scene ModelLoader) @
           [case ErrorInstance ''e4'' of ErrorInstance msg \<Rightarrow> msg
            | ErrorEvent msg \<Rightarrow> ''Failed to load model''] \<and>
       onLoad_calls s' = onLoad_calls (ModelLoader_mount ''a.glb'' :: scene ModelLoader) \<and>
       scheduled_delays s' = scheduled_delays (ModelLoader_mount ''a.glb'' :: scene ModelLoader) @ [0, 1000, 2000] \<and>
       pending_timers s' = [] \<and> retryCount s' = 3)"
proof -
  have h: "in_flight (ModelLoader_mount ''a.glb'' :: scene ModelLoader) 0"
    by (rule mount_in_flight)
  show ?thesis
    by (rule conjI [OF h four_failures_report_once [OF h]])
qed


section \<open>Properties of the material and lifecycle manager\<close>

lemma sample_ids: "mesh_ids (root sample_scene) = [0, 1]"
  by (simp add: sample_scene_def mesh_ids_def List.map_filter_simps)

lemma sample_points: "points sample_scene = [1, 3, - 2, 1 / 2]"
  by (simp add: sample_scene_def points_def)

subsection \<open>Recording and swapping at load, toggling afterwards\<close>

lemma swap_material_frame:
  "matteMaterial (swap_material obj s) = matteMaterial s"
  "model (swap_material obj s) = model s"
  by (simp_all add: swap_material_def split: option.splits)

lemma fold_swap_frame:
  "matteMaterial (fold swap_material os s) = matteMaterial s"
  "model (fold swap_material os s) = model s"
  by (induction os arbitrary: s) (simp_all add: swap_material_frame)

lemma swap_material_hit:
  "mesh_of obj = Some j \<Longrightarrow>
   mesh_material (meshes (swap_material obj s) j) = matteMaterial s \<and>
   materials (swap_material obj s) j = Some (mesh_material (meshes s j))"
  by (simp add: swap_material_def)

lemma swap_material_miss:
  "mesh_of obj \<noteq> Some i \<Longrightarrow>
   meshes (swap_material obj s) i = meshes s i \<and>
   materials (swap_material obj s) i = materials s i"
  by (auto simp add: swap_material_def split: option.splits)

lemma map_filter_Cons_set:
  "i \<in> set (List.map_filter f (x # xs)) \<longleftrightarrow> f x = Some i \<or> i \<in> set (List.map_filter f xs)"
  by (auto simp add: List.map_filter_simps split: option.splits)

lemma map_filter_Cons_distinct:
  "distinct (List.map_filter f (x # xs)) \<longleftrightarrow>
     (\<forall>j. f x = Some j \<longrightarrow> j \<notin> set (List.map_filter f xs)) \<and>
     distinct (List.map_filter f xs)"
  by (simp add: List.map_filter_simps split: option.splits)

lemma fold_swap_other:
  "i \<notin> set (List.map_filter mesh_of os) \<Longrightarrow>
   meshes (fold swap_material os s) i = meshes s i \<and>
   materials (fold swap_material os s) i = materials s i"
  by (induction os arbitrary: s)
     (simp_all add: map_filter_Cons_set swap_material_miss del: List.map_filter_simps)

lemma fold_swap_matte:
  "i \<in> set (List.map_filter mesh_of os) \<Longrightarrow>
   mesh_material (meshes (fold swap_material os s) i) = matteMaterial s"
proof (induction os arbitrary: s)
  case Nil
  then show ?case by (simp add: List.map_filter_simps)
next
  case (Cons obj os)
  show ?case
  proof (cases "i \<in> set (List.map_filter mesh_of os)")
    case True
    from Cons.IH [OF this, of "swap_material obj s"] show ?thesis
      by (simp add: swap_material_frame)
  next
    case False
    with Cons.prems have "mesh_of obj = Some i"
      by (simp add: map_filter_Cons_set del: List.map_filter_simps)
    from swap_material_hit [OF this, of s] fold_swap_other [OF False, of "swap_material obj s"]
    show ?thesis by simp
  qed
qed

lemma fold_swap_recorded:
  "distinct (List.map_filter mesh_of os) \<Longrightarrow> i \<in> set (List.map_filter mesh_of os) \<Longrightarrow>
   materials (fold swap_material os s) i = Some (mesh_material (meshes s i))"
proof (induction os arbitrary: s)
  case Nil
  then show ?case by (simp add: List.map_filter_simps)
next
  case (Cons obj os)
  from Cons.prems(1) have d: "distinct (List.map_filter mesh_of os)"
    by (simp add: map_filter_Cons_distinct del: List.map_filter_simps)
  show ?case
  proof (cases "mesh_of obj = Some i")
    case True
    with Cons.prems(1) have "i \<notin> set (List.map_filter mesh_of os)"
      by (simp add: map_filter_Cons_distinct del: List.map_filter_simps)
    from fold_swap_other [OF this, of "swap_material obj s"] swap_material_hit [OF True, of s]
    show ?thesis by simp
  next
    case False
    with Cons.prems(2) have "i \<in> set (List.map_filter mesh_of os)"
      by (simp add: map_filter_Cons_set del: List.map_filter_simps)
    from Cons.IH [OF d this, of "swap_material obj s"] swap_material_miss [OF False, of s]
    show ?thesis by simp
  qed
qed

lemma toggle_material_frame:
  "matteMaterial (toggle_material obj s) = matteMaterial s"
  "model (toggle_material obj s) = model s"
  "materials (toggle_material obj s) = materials s"
  by (simp_all add: toggle_material_def Let_def split: option.splits)

lemma fold_toggle_frame:
  "matteMaterial (fold toggle_material os s) = matteMaterial s"
  "model (fold toggle_material os s) = model s"
  "materials (fold toggle_material os s) = materials s"
  by (induction os arbitrary: s) (simp_all add: toggle_material_frame)

lemma toggle_material_hit:
  "mesh_of obj = Some j \<Longrightarrow> mesh_material (meshes (toggle_material obj s) j) = toggled s j"
  by (simp add: toggle_material_def toggled_def Let_def)

lemma toggle_material_miss:
  "mesh_of obj \<noteq> Some i \<Longrightarrow> meshes (toggle_material obj s) i = meshes s i"
  by (auto simp add: toggle_material_def Let_def split: option.splits)

lemma toggled_cong:
  "meshes s' i = meshes s i \<Longrightarrow> materials s' = materials s \<Longrightarrow>
   matteMaterial s' = matteMaterial s \<Longrightarrow> toggled s' i = toggled s i"
  by (simp add: toggled_def split: option.splits)

lemma fold_toggle_other:
  "i \<notin> set (List.map_filter mesh_of os) \<Longrightarrow>
   meshes (fold toggle_material os s) i = meshes s i"
  by (induction os arbitrary: s)
     (simp_all add: map_filter_Cons_set toggle_material_miss del: List.map_filter_simps)

lemma fold_toggle_mesh:
  "distinct (List.map_filter mesh_of os) \<Longrightarrow> i \<in> set (List.map_filter mesh_of os) \<Longrightarrow>
   mesh_material (meshes (fold toggle_material os s) i) = toggled s i"
proof (induction os arbitrary: s)
  case Nil
  then show ?case by (simp add: List.map_filter_simps)
next
  case (Cons obj os)
  from Cons.prems(1) have d: "distinct (List.map_filter mesh_of os)"
    by (simp add: map_filter_Cons_distinct del: List.map_filter_simps)
  show ?case
  proof (cases "mesh_of obj = Some i")
    case True
    with Cons.prems(1) have "i \<notin> set (List.map_filter mesh_of os)"
      by (simp add: map_filter_Cons_distinct del: List.map_filter_simps)
    from fold_toggle_other [OF this, of "toggle_material obj s"] toggle_material_hit [OF True, of s]
    show ?thesis by simp
  next
    case False
    with Cons.prems(2) have "i \<in> set (List.map_filter mesh_of os)"
      by (simp add: map_filter_Cons_set del: List.map_filter_simps)
    from Cons.IH [OF d this, of "toggle_material obj s"]
    have "mesh_material (meshes (fold toggle_material (obj # os) s) i) =
          toggled (toggle_material obj s) i" by simp
    also have "\<dots> = toggled s i"
      by (rule toggled_cong) (simp_all add: toggle_material_miss [OF False] toggle_material_frame)
    finally show ?thesis .
  qed
qed

lemma toggleTextures_mesh:
  assumes "model s = Some m" and "distinct (mesh_ids (root m))" and "i \<in> set (mesh_ids (root m))"
  shows "mesh_material (meshes (toggleTextures s) i) = toggled s i"
    and "materials (toggleTextures s) = materials s"
    and "matteMaterial (toggleTextures s) = matteMaterial s"
    and "model (toggleTextures s) = model s"
  using assms fold_toggle_mesh [of "traverse (root m)" i s]
  by (simp_all add: toggleTextures_def mesh_ids_def fold_toggle_frame)

lemma handleModelLoad_mesh:
  assumes "distinct (mesh_ids (root sc))" and "i \<in> set (mesh_ids (root sc))"
  shows "materials (handleModelLoad sc s) i = Some (mesh_material (meshes s i))"
    and "mesh_material (meshes (handleModelLoad sc s) i) = matteMaterial s"
    and "matteMaterial (handleModelLoad sc s) = matteMaterial s"
    and "\<exists>m. model (handleModelLoad sc s) = Some m \<and> root m = root sc"
  using assms fold_swap_recorded [of "traverse (root sc)" i s]
    fold_swap_matte [of i "traverse (root sc)" s]
  by (simp_all add: handleModelLoad_def mesh_ids_def Let_def fold_swap_frame)


text \<open>
  Claim C2, as stated: two toggles on a loaded model leave every mesh with the material
  recorded for it at load. On the sample graph, mesh 0 is recorded with material 1 and
  carries the matte material 0 after two toggles.
\<close>

theorem toggle_twice_counterexample:
  "materials (handleModelLoad sample_scene sample_content) 0 = Some (Material 1) \<and>
   mesh_material
     (meshes (toggleTextures (toggleTextures (handleModelLoad sample_scene sample_content))) 0)
     = Material 0 \<and>
   Some (mesh_material
     (meshes (toggleTextures (toggleTextures (handleModelLoad sample_scene sample_content))) 0))
     \<noteq> materials (handleModelLoad sample_scene sample_content) 0"
  by (simp add: handleModelLoad_def toggleTextures_def swap_material_def toggle_material_def
        sample_scene_def sample_content_def Let_def)

text \<open>
  Claim C2, amended. For every loaded model, whose meshes are distinct objects, and every
  mesh of it: the load records the material the mesh came with and gives it the matte
  material; one toggle gives it back the very material that was recorded; two toggles
  return it to the material it had before them, which is the matte material straight
  after the load, and the recorded original when the model was showing its textures.
\<close>

theorem toggle_after_load:
  assumes "distinct (mesh_ids (root sc))" and "i \<in> set (mesh_ids (root sc))"
  shows "let loaded = handleModelLoad sc s;
             once = toggleTextures loaded;
             twice = toggleTextures once;
             thrice = toggleTextures twice
         in materials loaded i = Some (mesh_material (meshes s i)) \<and>
            mesh_material (meshes loaded i) = matteMaterial s \<and>
            mesh_material (meshes once i) = mesh_material (meshes s i) \<and>
            mesh_material (meshes twice i) = mesh_material (meshes loaded i) \<and>
            mesh_material (meshes thrice i) = mesh_material (meshes once i)"
proof -
  define loaded where "loaded = handleModelLoad sc s"
  define once where "once = toggleTextures loaded"
  define twice where "twice = toggleTextures once"
  define thrice where "thrice = toggleTextures twice"
  note l = handleModelLoad_mesh [OF assms, of s, folded loaded_def]
  from l(4) obtain m where m: "model loaded = Some m" "root m = root sc" by blast
  with assms have dm: "distinct (mesh_ids (root m))" and im: "i \<in> set (mesh_ids (root m))"
    by simp_all
  note t1 = toggleTextures_mesh [OF m(1) dm im, folded once_def]
  from t1(4) m(1) have m1: "model once = Some m" by simp
  note t2 = toggleTextures_mesh [OF m1 dm im, folded twice_def]
  from t2(4) m1 have m2: "model twice = Some m" by simp
  note t3 = toggleTextures_mesh [OF m2 dm im, folded thrice_def]
  have o: "mesh_material (meshes once i) = mesh_material (meshes s i)"
    using t1(1) l by (simp add: toggled_def)
  have tw: "mesh_material (meshes twice i) = matteMaterial s"
    using t2(1) t1 l o by (simp add: toggled_def)
  have th: "mesh_material (meshes thrice i) = mesh_material (meshes s i)"
    using t3(1) t2 t1 l tw by (simp add: toggled_def)
  show ?thesis
    unfolding Let_def loaded_def [symmetric] once_def [symmetric] twice_def [symmetric]
      thrice_def [symmetric]
    using l o tw th by simp
qed

theorem toggle_after_load_witness:
  "distinct (mesh_ids (root sample_scene)) \<and> 1 \<in> set (mesh_ids (root sample_scene)) \<and>
   (let loaded = handleModelLoad sample_scene sample_content;
        once = toggleTextures loaded;
        twice = toggleTextures once;
        thrice = toggleTextures twice
    in materials loaded 1 = Some (mesh_material (meshes sample_content 1)) \<and>
       mesh_material (meshes loaded 1) = matteMaterial sample_content \<and>
       mesh_material (meshes once 1) = mesh_material (meshes sample_content 1) \<and>
       mesh_material (meshes twice 1) = mesh_material (meshes loaded 1) \<and>
       mesh_material (meshes thrice 1) = mesh_material (meshes once 1))"
proof -
  have d: "distinct (mesh_ids (root sample_scene))" and i: "1 \<in> set (mesh_ids (root sample_scene))"
    by (simp_all add: sample_ids)
  from toggle_after_load [OF d i, of sample_content] d i show ?thesis by blast
qed

text \<open>
  Claim C10. While no model is loaded, the texture toggle returns at once: the materials
  of the meshes, the map of recorded materials and the rest of the state stay as they are.
\<close>

theorem toggleTextures_without_model:
  "model s = None \<Longrightarrow> toggleTextures s = s"
  by (simp add: toggleTextures_def)

theorem toggleTextures_without_model_witness:
  "model sample_content = None \<and> toggleTextures sample_content = sample_content"
proof -
  have n: "model sample_content = None" by (simp add: sample_content_def)
  from toggleTextures_without_model [OF n] n show ?thesis by blast
qed

subsection \<open>Ground alignment\<close>

lemma lower_finite:
  "fold (\<lambda>h m. Math_min m (Finite (p + h))) hs (Finite m) =
   Finite (fold (\<lambda>h m. min m (p + h)) hs m)"
  by (induction hs arbitrary: m) (simp_all add: min_def)

lemma lower_shift:
  "fold (\<lambda>h m. min m ((p + d) + h)) hs (m + d) = fold (\<lambda>h m. min m (p + h)) hs m + (d::real)"
proof (induction hs arbitrary: m)
  case Nil
  show ?case by simp
next
  case (Cons h hs)
  have "min (m + d) (p + d + h) = min m (p + h) + d" by (simp add: min_def)
  with Cons.IH [of "min m (p + h)"] show ?case by simp
qed

lemma Box3_min_y_finite:
  assumes "position_y sc = Finite p" and "points sc = h # hs"
  shows "Box3_min_y sc = Finite (fold (\<lambda>h m. min m (p + h)) hs (p + h))"
  using assms unfolding Box3_min_y_def points_def [symmetric]
  by (simp add: lower_finite)


lemma aligned_after_load:
  assumes "position_y sc = Finite p" and "points sc \<noteq> []"
  shows "\<exists>moved. model (handleModelLoad sc s) = Some moved \<and>
           root moved = root sc \<and>
           position_y moved = num_minus (position_y sc) (Box3_min_y sc) \<and>
           Box3_min_y moved = Finite 0"
proof -
  from assms(2) obtain h hs where pts: "points sc = h # hs" by (cases "points sc") auto
  define low where "low = fold (\<lambda>h m. min m (p + h)) hs (p + h)"
  have box: "Box3_min_y sc = Finite low"
    unfolding low_def by (rule Box3_min_y_finite [OF assms(1) pts])
  define moved where "moved = sc\<lparr>position_y := num_plus (position_y sc) (num_neg (Box3_min_y sc))\<rparr>"
  have pos: "position_y moved = Finite (p + (- low))"
    by (simp add: moved_def box assms(1))
  have pts': "points moved = h # hs"
    using pts by (simp add: moved_def points_def)
  have "Box3_min_y moved = Finite (fold (\<lambda>h m. min m ((p + (- low)) + h)) hs ((p + (- low)) + h))"
    by (rule Box3_min_y_finite [OF pos pts'])
  also have "(p + (- low)) + h = (p + h) + (- low)" by simp
  also have "fold (\<lambda>h m. min m ((p + (- low)) + h)) hs ((p + h) + (- low)) = low + (- low)"
    using lower_shift [of p "- low" hs "p + h"] by (simp only: low_def)
  finally have zero: "Box3_min_y moved = Finite 0" by simp
  have "model (handleModelLoad sc s) = Some moved"
    by (simp add: handleModelLoad_def Let_def moved_def)
  moreover have "root moved = root sc" by (simp add: moved_def)
  moreover have "position_y moved = num_minus (position_y sc) (Box3_min_y sc)"
    by (simp add: moved_def num_minus_def)
  ultimately show ?thesis using zero by blast
qed

lemma live_success_calls_once:
  assumes "i < length (requests l)" and "\<not> settled (requests l ! i)"
    and "\<not> canceled (requests l ! i)"
  shows "drop (length (onLoad_calls l)) (onLoad_calls (step (LoadSucceeds i g) l)) = [g]"
    and "onLoad_calls (step (LoadSucceeds i g') (step (LoadSucceeds i g) l)) =
         onLoad_calls (step (LoadSucceeds i g) l)"
  using assms by (simp_all add: on_load_success_def settle_def)

lemma handleModelLoad_swaps:
  "materials (handleModelLoad sc c) = materials (fold swap_material (traverse (root sc)) c)"
  "meshes (handleModelLoad sc c) = meshes (fold swap_material (traverse (root sc)) c)"
  by (simp_all add: handleModelLoad_def Let_def)

text \<open>
  Claim C9, as stated: for every loaded graph the lowest point ends up at Y = 0. A graph
  without geometry has an empty bounding box, whose minimum is plus infinity: it is moved
  to minus infinity and its box stays empty.
\<close>

theorem ground_alignment_counterexample:
  "points bare_scene = [] \<and>
   map_option position_y (model (handleModelLoad bare_scene sample_content)) = Some NegInfinity \<and>
   map_option Box3_min_y (model (handleModelLoad bare_scene sample_content)) = Some PosInfinity \<and>
   map_option Box3_min_y (model (handleModelLoad bare_scene sample_content)) \<noteq> Some (Finite 0)"
  by (simp add: handleModelLoad_def Box3_min_y_def bare_scene_def points_def Let_def)

text \<open>
  Claim C9, amended. When a load in flight ends in success with a graph that has at least
  one point and a finite vertical position, the loader calls \<open>onLoad\<close> exactly once, and
  once only if the loader reports the same load again; that call records and swaps the
  materials and, after the swap, moves the graph along the vertical axis by the negative
  of the minimum Y of its bounding box, once, so that the minimum Y of the box of the
  graph that is kept is 0.
\<close>

theorem ground_alignment:
  fixes l :: "scene ModelLoader"
  assumes "position_y sc = Finite p" and "points sc \<noteq> []"
    and "i < length (requests l)" and "\<not> settled (requests l ! i)"
    and "\<not> canceled (requests l ! i)"
  shows "let l' = step (LoadSucceeds i sc) l;
             calls = drop (length (onLoad_calls l)) (onLoad_calls l');
             c' = deliver calls c
         in calls = [sc] \<and>
            onLoad_calls (step (LoadSucceeds i sc') l') = onLoad_calls l' \<and>
            materials c' = materials (fold swap_material (traverse (root sc)) c) \<and>
            meshes c' = meshes (fold swap_material (traverse (root sc)) c) \<and>
            (\<exists>moved. model c' = Some moved \<and> root moved = root sc \<and>
               position_y moved = num_minus (position_y sc) (Box3_min_y sc) \<and>
               Box3_min_y moved = Finite 0)"
proof -
  have once: "drop (length (onLoad_calls l)) (onLoad_calls (step (LoadSucceeds i sc) l)) = [sc]"
    by (rule live_success_calls_once(1) [OF assms(3,4,5)])
  have again: "onLoad_calls (step (LoadSucceeds i sc') (step (LoadSucceeds i sc) l)) =
               onLoad_calls (step (LoadSucceeds i sc) l)"
    by (rule live_success_calls_once(2) [OF assms(3,4,5)])
  have d: "deliver [sc] c = handleModelLoad sc c" by (simp add: deliver_def)
  show ?thesis
    unfolding Let_def once d
    using again handleModelLoad_swaps [of sc c] aligned_after_load [OF assms(1,2), of c]
    by (simp del: step.simps)
qed

theorem ground_alignment_witness:
  "position_y sample_scene = Finite 4 \<and> points sample_scene \<noteq> [] \<and>
   0 < length (requests (ModelLoader_mount ''a.glb'' :: scene ModelLoader)) \<and>
   \<not> settled (requests (ModelLoader_mount ''a.glb'' :: scene ModelLoader) ! 0) \<and>
   \<not> canceled (requests (ModelLoader_mount ''a.glb'' :: scene ModelLoader) ! 0) \<and>
   (let l' = step (LoadSucceeds 0 sample_scene) (ModelLoader_mount ''a.glb'' :: scene ModelLoader);
        calls = drop (length (onLoad_calls (ModelLoader_mount ''a.glb'' :: scene ModelLoader)))
                  (onLoad_calls l');
        c' = deliver calls sample_content
    in calls = [sample_scene] \<and>
       onLoad_calls (step (LoadSucceeds 0 bare_scene) l') = onLoad_calls l' \<and>
       materials c' =
         materials (fold swap_material (traverse (root sample_scene)) sample_content) \<and>
       meshes c' = meshes (fold swap_material (traverse (root sample_scene)) sample_content) \<and>
       (\<exists>moved. model c' = Some moved \<and> root moved = root sample_scene \<and>
          position_y moved = num_minus (position_y sample_scene) (Box3_min_y sample_scene) \<and>
          Box3_min_y moved = Finite 0))"
proof -
  have p: "position_y sample_scene = Finite 4" by (simp add: sample_scene_def)
  have q: "points sample_scene \<noteq> []" by (simp add: sample_points)
  have r: "0 < length (requests (ModelLoader_mount ''a.glb'' :: scene ModelLoader))"
    and t: "\<not> settled (requests (ModelLoader_mount ''a.glb'' :: scene ModelLoader) ! 0)"
    and u: "\<not> canceled (requests (ModelLoader_mount ''a.glb'' :: scene ModelLoader) ! 0)"
    by (simp_all add: ModelLoader_mount_def run_effect_def)
  show ?thesis
    by (intro conjI p q r t u) (rule ground_alignment [OF p q r t u])
qed


text \<open>A graph without any point has no lowest one: its box stays empty and the move is infinite.\<close>

lemma empty_graph_alignment:
  "points sc = [] \<Longrightarrow> position_y sc = Finite p \<Longrightarrow>
   Box3_min_y sc = PosInfinity \<and>
   map_option position_y (model (handleModelLoad sc s)) = Some NegInfinity"
  unfolding Box3_min_y_def points_def [symmetric]
  by (simp add: handleModelLoad_def Let_def Box3_min_y_def points_def [symmetric])


end
